theory Spec2Isabelle
  imports Main
begin

section \<open>The service worker of Roger's Restaurant (sw.js)\<close>

text \<open>
  The worker is four event listeners (install, activate, fetch, message) and a sync
  listener over the browser's Cache Storage. The listeners are embedded as they are
  written: promise chains built from \<open>then\<close> and \<open>catch\<close>, run over an explicit world
  that holds the Cache Storage and a trace of every browser call the worker makes.
\<close>

subsection \<open>Constants of the source\<close>

definition CACHE_NAME :: string where
  "CACHE_NAME = ''rogers-restaurant-v2''"

definition STATIC_CACHE :: string where
  "STATIC_CACHE = ''rogers-static-v2''"

definition DYNAMIC_CACHE :: string where
  "DYNAMIC_CACHE = ''rogers-dynamic-v2''"

type_synonym url = string

definition STATIC_ASSETS :: "url list" where
  "STATIC_ASSETS =
     [''./'',
      ''./rogers.html'',
      ''./images/logo.jpg'',
      ''./images/ovenwings.jpg'',
      ''./images/pexels-zain-ali-549209752-27645103.jpg'',
      ''./images/rogers1.mp4'']"

definition EXTERNAL_RESOURCES :: "url list" where
  "EXTERNAL_RESOURCES =
     [''https://fonts.googleapis.com/css2?family=Inter:wght@300;400;500;600;700;800&family=Space+Grotesk:wght@300;400;500;600;700;800&family=Poppins:wght@300;400;500;600;700;800&display=swap'',
      ''https://unpkg.com/react@17/umd/react.production.min.js'',
      ''https://unpkg.com/react-dom@17/umd/react-dom.production.min.js'',
      ''https://unpkg.com/@babel/standalone/babel.min.js'']"

subsection \<open>Data: requests, responses, the Cache Storage, the world\<close>

record request =
  req_url :: url
  req_origin :: string
  req_method :: string
  req_destination :: string

record response =
  status :: nat
  body :: string

text \<open>
  A cache partition is an ordered list of (request URL, response) entries, the Cache
  Storage an ordered list of named partitions (\<open>caches.keys()\<close> and \<open>caches.match\<close>
  go through them in creation order). The network is a function from a URL to the
  response the server gives; \<open>None\<close> is a fetch that rejects.
\<close>

type_synonym cache = "(url \<times> response) list"
type_synonym cache_storage = "(string \<times> cache) list"
type_synonym network = "url \<Rightarrow> response option"

datatype error = NetworkError url | BadResponse url | TypeError

datatype event =
    Log string
  | NetFetch url
  | CachesMatch url
  | CachesOpen string
  | CachesKeys
  | CachesDelete string
  | CachePut string url
  | SkipWaiting
  | ClientsClaim
  | PostMessage nat string

record world =
  storage :: cache_storage
  trace :: "event list"

definition emit :: "event list \<Rightarrow> world \<Rightarrow> world" where
  "emit evs w = w\<lparr>trace := trace w @ evs\<rparr>"

subsection \<open>Promises\<close>

text \<open>
  A promise is a computation over the world that settles with a result (\<open>Inr\<close>) or
  rejects with an error (\<open>Inl\<close>). \<open>then_p\<close> is \<open>.then(f)\<close>: a rejection skips \<open>f\<close>.
  \<open>catch_p\<close> is \<open>.catch(h)\<close>: a rejection runs \<open>h\<close>, and the promise settles with
  what \<open>h\<close> returns. \<open>detached\<close> is a promise that is started and not awaited: its
  effects happen, its outcome is dropped.
\<close>

type_synonym 'a promise = "world \<Rightarrow> (error + 'a) \<times> world"

definition resolve :: "'a \<Rightarrow> 'a promise" where
  "resolve x w = (Inr x, w)"

definition reject :: "error \<Rightarrow> 'a promise" where
  "reject e w = (Inl e, w)"

definition then_p :: "'a promise \<Rightarrow> ('a \<Rightarrow> 'b promise) \<Rightarrow> 'b promise" where
  "then_p p f w = (case p w of (Inl e, w') \<Rightarrow> (Inl e, w') | (Inr x, w') \<Rightarrow> f x w')"

definition catch_p :: "'a promise \<Rightarrow> (error \<Rightarrow> 'a promise) \<Rightarrow> 'a promise" where
  "catch_p p h w = (case p w of (Inl e, w') \<Rightarrow> h e w' | (Inr x, w') \<Rightarrow> (Inr x, w'))"

definition detached :: "'a promise \<Rightarrow> unit promise" where
  "detached p w = (Inr (), snd (p w))"

fun promise_all :: "'a promise list \<Rightarrow> 'a list promise" where
  "promise_all [] w = (Inr [], w)"
| "promise_all (p # ps) w =
     (case p w of (r, w') \<Rightarrow>
        (case promise_all ps w' of (rs, w'') \<Rightarrow>
           (case r of
              Inl e \<Rightarrow> (Inl e, w'')
            | Inr x \<Rightarrow> (case rs of Inl e \<Rightarrow> (Inl e, w'') | Inr xs \<Rightarrow> (Inr (x # xs), w'')))))"

definition console_log :: "string \<Rightarrow> unit promise" where
  "console_log s w = (Inr (), emit [Log s] w)"

subsection \<open>The browser calls the worker makes\<close>

text \<open>
  \<open>caches.open(name)\<close> gives the partition of that name and creates it, empty, when
  there is none. \<open>cache.put\<close> replaces the entry of the same URL: the old entry is
  removed and the new one appended. \<open>caches.match\<close> answers from the first partition,
  in creation order, that has the URL. \<open>caches.delete\<close> removes a partition.
\<close>

definition has_cache :: "string \<Rightarrow> cache_storage \<Rightarrow> bool" where
  "has_cache name cs = (name \<in> set (map fst cs))"

definition create_if_absent :: "string \<Rightarrow> cache_storage \<Rightarrow> cache_storage" where
  "create_if_absent name cs = (if has_cache name cs then cs else cs @ [(name, [])])"

definition caches_open :: "string \<Rightarrow> string promise" where
  "caches_open name w =
     (Inr name, emit [CachesOpen name] (w\<lparr>storage := create_if_absent name (storage w)\<rparr>))"

definition put_entry :: "url \<Rightarrow> response \<Rightarrow> cache \<Rightarrow> cache" where
  "put_entry u r c = filter (\<lambda>kv. fst kv \<noteq> u) c @ [(u, r)]"

definition put_in :: "string \<Rightarrow> url \<Rightarrow> response \<Rightarrow> cache_storage \<Rightarrow> cache_storage" where
  "put_in name u r cs = map (\<lambda>nc. if fst nc = name then (fst nc, put_entry u r (snd nc)) else nc) cs"

definition cache_put :: "string \<Rightarrow> request \<Rightarrow> response \<Rightarrow> unit promise" where
  "cache_put name rq r w =
     (Inr (), emit [CachePut name (req_url rq)] (w\<lparr>storage := put_in name (req_url rq) r (storage w)\<rparr>))"

fun match_all :: "url \<Rightarrow> cache_storage \<Rightarrow> response option" where
  "match_all u [] = None"
| "match_all u (nc # cs) =
     (case map_of (snd nc) u of Some r \<Rightarrow> Some r | None \<Rightarrow> match_all u cs)"

definition caches_match :: "request \<Rightarrow> response option promise" where
  "caches_match rq w = (Inr (match_all (req_url rq) (storage w)), emit [CachesMatch (req_url rq)] w)"

definition caches_keys :: "string list promise" where
  "caches_keys w = (Inr (map fst (storage w)), emit [CachesKeys] w)"

definition caches_delete :: "string \<Rightarrow> bool promise" where
  "caches_delete name w =
     (Inr (has_cache name (storage w)),
      emit [CachesDelete name] (w\<lparr>storage := filter (\<lambda>nc. fst nc \<noteq> name) (storage w)\<rparr>))"

definition fetch :: "network \<Rightarrow> request \<Rightarrow> response promise" where
  "fetch net rq w =
     (case net (req_url rq) of
        None \<Rightarrow> (Inl (NetworkError (req_url rq)), emit [NetFetch (req_url rq)] w)
      | Some r \<Rightarrow> (Inr r, emit [NetFetch (req_url rq)] w))"

text \<open>
  \<open>cache.addAll(urls)\<close> fetches every URL and writes the responses only when every
  fetch resolved with an ok status (200 to 299); otherwise it rejects and writes
  nothing.
\<close>

definition ok :: "response \<Rightarrow> bool" where
  "ok r = (200 \<le> status r \<and> status r \<le> 299)"

fun fetch_all :: "network \<Rightarrow> url list \<Rightarrow> error + (url \<times> response) list" where
  "fetch_all net [] = Inr []"
| "fetch_all net (u # us) =
     (case net u of
        None \<Rightarrow> Inl (NetworkError u)
      | Some r \<Rightarrow>
          if ok r then (case fetch_all net us of Inl e \<Rightarrow> Inl e | Inr rs \<Rightarrow> Inr ((u, r) # rs))
          else Inl (BadResponse u))"

fun put_all :: "string \<Rightarrow> (url \<times> response) list \<Rightarrow> cache_storage \<Rightarrow> cache_storage" where
  "put_all name [] cs = cs"
| "put_all name (ur # rs) cs = put_all name rs (put_in name (fst ur) (snd ur) cs)"

definition cache_addAll :: "network \<Rightarrow> string \<Rightarrow> url list \<Rightarrow> unit promise" where
  "cache_addAll net name urls w =
     (case fetch_all net urls of
        Inl e \<Rightarrow> (Inl e, emit (map NetFetch urls) w)
      | Inr rs \<Rightarrow>
          (Inr (),
           emit (map NetFetch urls @ map (CachePut name) urls)
             (w\<lparr>storage := put_all name rs (storage w)\<rparr>)))"

definition skipWaiting :: "unit promise" where
  "skipWaiting w = (Inr (), emit [SkipWaiting] w)"

definition clients_claim :: "unit promise" where
  "clients_claim w = (Inr (), emit [ClientsClaim] w)"

subsection \<open>The install listener\<close>

definition install_chain :: "network \<Rightarrow> unit promise" where
  "install_chain net =
     catch_p
       (then_p
          (then_p
             (then_p
                (then_p (caches_open STATIC_CACHE)
                   (\<lambda>cache. then_p (console_log ''Caching static assets'')
                      (\<lambda>_. cache_addAll net cache STATIC_ASSETS)))
                (\<lambda>_. then_p (console_log ''Static assets cached successfully'')
                   (\<lambda>_. caches_open DYNAMIC_CACHE)))
             (\<lambda>cache. then_p (console_log ''Dynamic cache ready'')
                (\<lambda>_. cache_addAll net cache EXTERNAL_RESOURCES)))
          (\<lambda>_. then_p (console_log ''External resources cached successfully'')
             (\<lambda>_. skipWaiting)))
       (\<lambda>error. console_log ''Service Worker installation failed:'')"

text \<open>
  The listener logs and hands the chain to \<open>event.waitUntil\<close>; the first component of
  the result is how that promise settles.
\<close>

definition on_install :: "network \<Rightarrow> unit promise" where
  "on_install net = then_p (console_log ''Service Worker installing...'') (\<lambda>_. install_chain net)"

text \<open>
  What the browser does with the worker after the install event: a rejected
  \<open>waitUntil\<close> promise discards the worker, a fulfilled one installs it.
\<close>

datatype worker_state = Installed | Redundant

definition after_install :: "(error + unit) \<Rightarrow> worker_state" where
  "after_install r = (case r of Inl e \<Rightarrow> Redundant | Inr u \<Rightarrow> Installed)"

subsection \<open>The activate listener\<close>

text \<open>The callback given to \<open>cacheNames.map\<close>; it returns \<open>undefined\<close> for a current name.\<close>

definition delete_if_old :: "string \<Rightarrow> bool option promise" where
  "delete_if_old cacheName =
     (if cacheName \<noteq> STATIC_CACHE \<and> cacheName \<noteq> DYNAMIC_CACHE
      then then_p (console_log (''Deleting old cache: '' @ cacheName))
             (\<lambda>_. then_p (caches_delete cacheName) (\<lambda>b. resolve (Some b)))
      else resolve None)"

definition on_activate :: "unit promise" where
  "on_activate =
     then_p (console_log ''Service Worker activating...'')
       (\<lambda>_. then_p
          (then_p caches_keys
             (\<lambda>cacheNames. promise_all (map delete_if_old cacheNames)))
          (\<lambda>_. then_p (console_log ''Service Worker activated successfully'')
             (\<lambda>_. clients_claim)))"

subsection \<open>The fetch listener\<close>

text \<open>
  The callback of \<open>fetch(request).then\<close>, the same in both branches: a response of
  status 200 is cloned and put into the dynamic partition by a chain that is not
  awaited, and the response itself is returned.
\<close>

definition cache_and_return :: "request \<Rightarrow> response \<Rightarrow> response option promise" where
  "cache_and_return rq fetchResponse =
     then_p
       (if status fetchResponse = 200
        then detached (then_p (caches_open DYNAMIC_CACHE)
                         (\<lambda>cache. cache_put cache rq fetchResponse))
        else resolve ())
       (\<lambda>_. resolve (Some fetchResponse))"

definition same_origin_chain :: "network \<Rightarrow> request \<Rightarrow> response option promise" where
  "same_origin_chain net rq =
     then_p (caches_match rq)
       (\<lambda>response. case response of
            Some r \<Rightarrow> resolve (Some r)
          | None \<Rightarrow> then_p (fetch net rq) (cache_and_return rq))"

definition cross_origin_chain :: "network \<Rightarrow> request \<Rightarrow> response option promise" where
  "cross_origin_chain net rq =
     then_p (caches_match rq)
       (\<lambda>response. case response of
            Some r \<Rightarrow> resolve (Some r)
          | None \<Rightarrow>
              catch_p (then_p (fetch net rq) (cache_and_return rq))
                (\<lambda>_. if req_destination rq = ''image''
                      then resolve (Some \<lparr>status = 404, body = ''''\<rparr>)
                      else resolve None))"

text \<open>
  The first component is what \<open>event.respondWith\<close> was given: \<open>None\<close> when the
  listener returned without calling it, otherwise how the promise settled, where a
  fulfilment with \<open>None\<close> is a fulfilment with \<open>undefined\<close>.
\<close>

definition respondWith :: "'a promise \<Rightarrow> world \<Rightarrow> (error + 'a) option \<times> world" where
  "respondWith p w = (case p w of (r, w') \<Rightarrow> (Some r, w'))"

definition on_fetch ::
  "string \<Rightarrow> network \<Rightarrow> request \<Rightarrow> world \<Rightarrow> (error + response option) option \<times> world" where
  "on_fetch self_origin net rq w =
     (if req_method rq \<noteq> ''GET'' then (None, w)
      else if req_origin rq = self_origin then respondWith (same_origin_chain net rq) w
      else respondWith (cross_origin_chain net rq) w)"

subsection \<open>The sync and message listeners\<close>

definition on_sync :: "string \<Rightarrow> world \<Rightarrow> world" where
  "on_sync tag w = (if tag = ''background-sync'' then emit [Log ''Background sync triggered''] w else w)"

text \<open>
  \<open>event.data\<close> is falsy, or an object whose \<open>type\<close> field is a string or something
  else; \<open>event.ports\<close> is the list of reply ports. Reading \<open>ports[0]\<close> of an empty list
  gives \<open>undefined\<close>, and the call on it throws.
\<close>

datatype data = Falsy | Truthy "string option"

record message_event =
  msg_data :: data
  msg_ports :: "nat list"

definition has_type :: "string \<Rightarrow> data \<Rightarrow> bool" where
  "has_type t d = (case d of Falsy \<Rightarrow> False | Truthy ty \<Rightarrow> ty = Some t)"

definition on_message :: "message_event \<Rightarrow> unit promise" where
  "on_message ev w =
     (let w1 = (if has_type ''SKIP_WAITING'' (msg_data ev) then emit [SkipWaiting] w else w)
      in if has_type ''GET_VERSION'' (msg_data ev)
         then (case msg_ports ev of
                 [] \<Rightarrow> (Inl TypeError, w1)
               | p # ps \<Rightarrow> (Inr (), emit [PostMessage p CACHE_NAME] w1))
         else (Inr (), w1))"

subsection \<open>Runs of events, and what is observed of a world\<close>

text \<open>
  After install the worker handles fetch, message and sync events, in any order; each
  fetch event comes with the network as it is at that moment.
\<close>

datatype sw_event = FetchEvent network request | MessageEvent message_event | SyncEvent string

fun handle :: "string \<Rightarrow> sw_event \<Rightarrow> world \<Rightarrow> world" where
  "handle self_origin (FetchEvent net rq) w = snd (on_fetch self_origin net rq w)"
| "handle self_origin (MessageEvent ev) w = snd (on_message ev w)"
| "handle self_origin (SyncEvent tag) w = on_sync tag w"

fun run :: "string \<Rightarrow> sw_event list \<Rightarrow> world \<Rightarrow> world" where
  "run self_origin [] w = w"
| "run self_origin (e # es) w = run self_origin es (handle self_origin e w)"

text \<open>The partition of a name (\<open>None\<close> when there is none) and its entries.\<close>

definition partition_of :: "string \<Rightarrow> world \<Rightarrow> cache option" where
  "partition_of name w = map_of (storage w) name"

definition entries :: "string \<Rightarrow> world \<Rightarrow> cache" where
  "entries name w = (case partition_of name w of None \<Rightarrow> [] | Some c \<Rightarrow> c)"

text \<open>The network fetches, cache lookups and cache writes recorded in a trace.\<close>

fun fetched :: "event \<Rightarrow> url list" where
  "fetched (NetFetch u) = [u]"
| "fetched e = []"

definition net_fetches :: "event list \<Rightarrow> url list" where
  "net_fetches evs = concat (map fetched evs)"

fun written :: "event \<Rightarrow> string list" where
  "written (CachePut name u) = [name]"
| "written e = []"

definition cache_writes :: "event list \<Rightarrow> string list" where
  "cache_writes evs = concat (map written evs)"

fun looked_up :: "event \<Rightarrow> url list" where
  "looked_up (CachesMatch u) = [u]"
| "looked_up e = []"

definition cache_lookups :: "event list \<Rightarrow> url list" where
  "cache_lookups evs = concat (map looked_up evs)"

definition new_events :: "world \<Rightarrow> world \<Rightarrow> event list" where
  "new_events w w' = drop (length (trace w)) (trace w')"

text \<open>Successive puts into one partition, as \<open>put_all\<close> does them.\<close>

fun put_entries :: "(url \<times> response) list \<Rightarrow> cache \<Rightarrow> cache" where
  "put_entries [] c = c"
| "put_entries (ur # rs) c = put_entries rs (put_entry (fst ur) (snd ur) c)"

text \<open>
  The version embedded in a partition name, in the words of the specification: the
  names are versioned by their suffix (\<open>v2\<close>), the text after the last hyphen.
\<close>

definition version_of :: "string \<Rightarrow> string" where
  "version_of name = rev (takeWhile (\<lambda>c. c \<noteq> CHR ''-'') (rev name))"

subsection \<open>Concrete worlds, networks and requests\<close>

definition fresh :: world where
  "fresh = \<lparr>storage = [], trace = []\<rparr>"

definition page :: response where
  "page = \<lparr>status = 200, body = ''<html>''\<rparr>"

definition online :: network where
  "online u = Some page"

definition html_missing :: network where
  "html_missing u = (if u = ''./rogers.html'' then None else Some page)"

definition not_found :: network where
  "not_found u = Some \<lparr>status = 404, body = ''''\<rparr>"

definition offline :: network where
  "offline u = None"

definition here :: string where
  "here = ''https://rogers.example''"

definition menu_get :: request where
  "menu_get = \<lparr>req_url = ''https://rogers.example/menu-item.jpg'', req_origin = ''https://rogers.example'',
                req_method = ''GET'', req_destination = ''image''\<rparr>"

definition order_post :: request where
  "order_post = \<lparr>req_url = ''https://rogers.example/order'', req_origin = ''https://rogers.example'',
                  req_method = ''POST'', req_destination = ''''\<rparr>"

definition cdn_image :: request where
  "cdn_image = \<lparr>req_url = ''https://cdn.example/hero.jpg'', req_origin = ''https://cdn.example'',
                 req_method = ''GET'', req_destination = ''image''\<rparr>"

definition cdn_script :: request where
  "cdn_script = \<lparr>req_url = ''https://cdn.example/app.js'', req_origin = ''https://cdn.example'',
                  req_method = ''GET'', req_destination = ''script''\<rparr>"

definition old_and_new :: world where
  "old_and_new =
     \<lparr>storage = [(''rogers-static-v1'', [(''./'', page)]),
                 (''rogers-static-v2'', [(''./'', page)]),
                 (''rogers-dynamic-v1'', []),
                 (''rogers-dynamic-v2'', [(''https://cdn.example/app.js'', page)])],
      trace = []\<rparr>"

definition version_query :: message_event where
  "version_query = \<lparr>msg_data = Truthy (Some ''GET_VERSION''), msg_ports = [0]\<rparr>"

definition populated :: world where
  "populated = \<lparr>storage = [(''rogers-static-v2'',
       [(''./'', page), (''./rogers.html'', page), (''./images/logo.jpg'', page),
        (''./images/ovenwings.jpg'', page),
        (''./images/pexels-zain-ali-549209752-27645103.jpg'', page),
        (''./images/rogers1.mp4'', page)])], trace = []\<rparr>"

definition updated :: network where
  "updated u = Some \<lparr>status = 200, body = ''<html>new''\<rparr>"


section \<open>Properties\<close>

subsection \<open>Auxiliary facts\<close>

lemmas promise_defs = resolve_def reject_def then_p_def catch_p_def detached_def console_log_def
  caches_open_def cache_put_def caches_match_def caches_keys_def caches_delete_def fetch_def
  cache_addAll_def skipWaiting_def clients_claim_def respondWith_def emit_def

lemmas observe_defs = new_events_def net_fetches_def cache_writes_def cache_lookups_def emit_def

lemma names_differ: "STATIC_CACHE \<noteq> DYNAMIC_CACHE"
  by (simp add: STATIC_CACHE_def DYNAMIC_CACHE_def)

lemma fetch_all_fails: "u \<in> set us \<Longrightarrow> net u = None \<Longrightarrow> isl (fetch_all net us)"
  by (induction us) (auto split: option.splits sum.splits)

lemma fetch_all_keys: "fetch_all net us = Inr rs \<Longrightarrow> map fst rs = us"
  by (induction us arbitrary: rs) (auto split: option.splits sum.splits if_splits)

lemma has_cache_map_of: "has_cache n cs \<longleftrightarrow> map_of cs n \<noteq> None"
  by (simp add: has_cache_def map_of_eq_None_iff)

lemma map_of_create:
  "map_of (create_if_absent n cs) m = (if m = n \<and> map_of cs n = None then Some [] else map_of cs m)"
  by (auto simp: create_if_absent_def has_cache_map_of map_add_def split: option.splits)

lemma map_of_put_in:
  "map_of (put_in n u r cs) m = (if m = n then map_option (put_entry u r) (map_of cs m) else map_of cs m)"
  by (induction cs) (auto simp: put_in_def)

lemma map_of_put_all:
  "map_of (put_all n rs cs) m = (if m = n then map_option (put_entries rs) (map_of cs m) else map_of cs m)"
proof (induction rs arbitrary: cs)
  case Nil
  show ?case by (simp add: option.map_ident)
next
  case (Cons ur rs)
  show ?case by (simp add: Cons.IH map_of_put_in option.map_comp comp_def)
qed

lemma put_entries_closed:
  "distinct (map fst rs) \<Longrightarrow> put_entries rs c = filter (\<lambda>kv. fst kv \<notin> set (map fst rs)) c @ rs"
proof (induction rs arbitrary: c)
  case Nil
  show ?case by simp
next
  case (Cons ur rs)
  from Cons.prems have d: "distinct (map fst rs)" and n: "fst ur \<notin> set (map fst rs)" by auto
  have "put_entries (ur # rs) c = put_entries rs (put_entry (fst ur) (snd ur) c)" by simp
  also have "\<dots> = filter (\<lambda>kv. fst kv \<notin> set (map fst rs)) (put_entry (fst ur) (snd ur) c) @ rs"
    by (rule Cons.IH [OF d])
  also have "\<dots> = filter (\<lambda>kv. fst kv \<notin> set (map fst (ur # rs))) c @ ur # rs"
    using n by (auto simp: put_entry_def intro: filter_cong)
  finally show ?case .
qed

lemma put_entries_twice:
  assumes "distinct (map fst rs)"
  shows "put_entries rs (put_entries rs c) = put_entries rs c"
proof -
  have "filter (\<lambda>kv. fst kv \<notin> set (map fst rs)) rs = []"
    by (auto simp: filter_empty_conv)
  then show ?thesis
    by (simp add: put_entries_closed [OF assms])
qed

lemma put_entries_keys:
  assumes "distinct (map fst rs)" and "set (map fst rs) \<subseteq> set (map fst c)" and "distinct (map fst c)"
  shows "set (map fst (put_entries rs c)) = set (map fst c) \<and> distinct (map fst (put_entries rs c))"
proof -
  have c: "put_entries rs c = filter (\<lambda>kv. fst kv \<notin> set (map fst rs)) c @ rs"
    by (rule put_entries_closed [OF assms(1)])
  have f: "map fst (filter (\<lambda>kv. fst kv \<notin> set (map fst rs)) c) = filter (\<lambda>k. k \<notin> set (map fst rs)) (map fst c)"
    by (simp add: filter_map comp_def)
  have "set (map fst (put_entries rs c)) = set (map fst c)"
    using assms(2) by (auto simp: c f)
  moreover have "distinct (map fst (put_entries rs c))"
    using assms(1) distinct_map_filter [OF assms(3), of "\<lambda>kv. fst kv \<notin> set (map fst rs)"]
    by (auto simp: c)
  ultimately show ?thesis by simp
qed

lemma on_install_closed:
  "on_install net w =
     (Inr (),
      case fetch_all net STATIC_ASSETS of
        Inl e \<Rightarrow>
          \<lparr>storage = create_if_absent STATIC_CACHE (storage w),
           trace = trace w @ [Log ''Service Worker installing...'', CachesOpen STATIC_CACHE,
                    Log ''Caching static assets''] @ map NetFetch STATIC_ASSETS @
                    [Log ''Service Worker installation failed:'']\<rparr>
      | Inr rs \<Rightarrow>
          (case fetch_all net EXTERNAL_RESOURCES of
             Inl e \<Rightarrow>
               \<lparr>storage = create_if_absent DYNAMIC_CACHE
                            (put_all STATIC_CACHE rs (create_if_absent STATIC_CACHE (storage w))),
                trace = trace w @ [Log ''Service Worker installing...'', CachesOpen STATIC_CACHE,
                    Log ''Caching static assets''] @ map NetFetch STATIC_ASSETS @
                    map (CachePut STATIC_CACHE) STATIC_ASSETS @
                    [Log ''Static assets cached successfully'', CachesOpen DYNAMIC_CACHE,
                     Log ''Dynamic cache ready''] @ map NetFetch EXTERNAL_RESOURCES @
                    [Log ''Service Worker installation failed:'']\<rparr>
           | Inr es \<Rightarrow>
               \<lparr>storage = put_all DYNAMIC_CACHE es (create_if_absent DYNAMIC_CACHE
                            (put_all STATIC_CACHE rs (create_if_absent STATIC_CACHE (storage w)))),
                trace = trace w @ [Log ''Service Worker installing...'', CachesOpen STATIC_CACHE,
                    Log ''Caching static assets''] @ map NetFetch STATIC_ASSETS @
                    map (CachePut STATIC_CACHE) STATIC_ASSETS @
                    [Log ''Static assets cached successfully'', CachesOpen DYNAMIC_CACHE,
                     Log ''Dynamic cache ready''] @ map NetFetch EXTERNAL_RESOURCES @
                    map (CachePut DYNAMIC_CACHE) EXTERNAL_RESOURCES @
                    [Log ''External resources cached successfully'', SkipWaiting]\<rparr>))"
  by (simp add: on_install_def install_chain_def promise_defs split: sum.splits)

lemma static_after_install:
  "partition_of STATIC_CACHE (snd (on_install net w)) =
     (case fetch_all net STATIC_ASSETS of
        Inl e \<Rightarrow> Some (entries STATIC_CACHE w)
      | Inr rs \<Rightarrow> Some (put_entries rs (entries STATIC_CACHE w)))"
  using names_differ
  by (auto simp: on_install_closed partition_of_def entries_def map_of_create map_of_put_all
      split: sum.splits option.splits)

lemma written_map_NetFetch: "concat (map written (map NetFetch us)) = []"
  by (induction us) auto

lemma map_of_put_entry_same: "map_of (put_entry u r c) u = Some r"
proof -
  have "map_of (filter (\<lambda>kv. fst kv \<noteq> u) c) u = None"
    by (auto simp: map_of_eq_None_iff)
  then show ?thesis
    by (simp add: put_entry_def map_add_def)
qed

lemma match_all_put_in:
  "match_all u cs = None \<Longrightarrow> has_cache n cs \<Longrightarrow> match_all u (put_in n u r cs) = Some r"
proof (induction cs)
  case Nil
  then show ?case by (simp add: has_cache_def)
next
  case (Cons nc cs)
  show ?case
  proof (cases "fst nc = n")
    case True
    then show ?thesis by (simp add: put_in_def map_of_put_entry_same)
  next
    case False
    with Cons.prems have "match_all u cs = None" "has_cache n cs" "map_of (snd nc) u = None"
      by (auto simp: has_cache_def split: option.splits)
    with Cons.IH False show ?thesis by (simp add: put_in_def)
  qed
qed

lemma has_cache_create: "has_cache n (create_if_absent n cs)"
  by (simp add: create_if_absent_def has_cache_def)

lemma match_all_create: "match_all u (create_if_absent n cs) = match_all u cs"
proof -
  have "match_all u (cs @ [(n, [])]) = match_all u cs"
    by (induction cs) (auto split: option.splits)
  then show ?thesis by (simp add: create_if_absent_def)
qed

lemma same_origin_closed:
  assumes "req_method rq = ''GET''" and "req_origin rq = self_origin"
  shows "on_fetch self_origin net rq w =
     (case match_all (req_url rq) (storage w) of
        Some r \<Rightarrow> (Some (Inr (Some r)), emit [CachesMatch (req_url rq)] w)
      | None \<Rightarrow>
          (case net (req_url rq) of
             None \<Rightarrow> (Some (Inl (NetworkError (req_url rq))),
                       emit [CachesMatch (req_url rq), NetFetch (req_url rq)] w)
           | Some r \<Rightarrow>
               (Some (Inr (Some r)),
                if status r = 200
                then \<lparr>storage = put_in DYNAMIC_CACHE (req_url rq) r
                                  (create_if_absent DYNAMIC_CACHE (storage w)),
                      trace = trace w @ [CachesMatch (req_url rq), NetFetch (req_url rq),
                                CachesOpen DYNAMIC_CACHE, CachePut DYNAMIC_CACHE (req_url rq)]\<rparr>
                else emit [CachesMatch (req_url rq), NetFetch (req_url rq)] w)))"
  using assms
  by (simp add: on_fetch_def same_origin_chain_def cache_and_return_def promise_defs
      split: option.splits)

lemma cross_origin_closed:
  assumes "req_method rq = ''GET''" and "req_origin rq \<noteq> self_origin"
  shows "on_fetch self_origin net rq w =
     (case match_all (req_url rq) (storage w) of
        Some r \<Rightarrow> (Some (Inr (Some r)), emit [CachesMatch (req_url rq)] w)
      | None \<Rightarrow>
          (case net (req_url rq) of
             None \<Rightarrow> (Some (Inr (if req_destination rq = ''image''
                                  then Some \<lparr>status = 404, body = ''''\<rparr> else None)),
                       emit [CachesMatch (req_url rq), NetFetch (req_url rq)] w)
           | Some r \<Rightarrow>
               (Some (Inr (Some r)),
                if status r = 200
                then \<lparr>storage = put_in DYNAMIC_CACHE (req_url rq) r
                                  (create_if_absent DYNAMIC_CACHE (storage w)),
                      trace = trace w @ [CachesMatch (req_url rq), NetFetch (req_url rq),
                                CachesOpen DYNAMIC_CACHE, CachePut DYNAMIC_CACHE (req_url rq)]\<rparr>
                else emit [CachesMatch (req_url rq), NetFetch (req_url rq)] w)))"
  using assms
  by (simp add: on_fetch_def cross_origin_chain_def cache_and_return_def promise_defs
      split: option.splits)

lemma delete_if_old_run:
  "delete_if_old n w =
     (if n \<noteq> STATIC_CACHE \<and> n \<noteq> DYNAMIC_CACHE
      then (Inr (Some (has_cache n (storage w))),
            \<lparr>storage = filter (\<lambda>nc. fst nc \<noteq> n) (storage w),
             trace = trace w @ [Log (''Deleting old cache: '' @ n), CachesDelete n]\<rparr>)
      else (Inr None, w))"
  by (simp add: delete_if_old_def promise_defs)

lemma sweep_fulfils: "\<not> isl (fst (promise_all (map delete_if_old names) w))"
proof (induction names arbitrary: w)
  case Nil
  show ?case by simp
next
  case (Cons n names)
  obtain r w' where 1: "delete_if_old n w = (Inr r, w')"
    by (cases "n \<noteq> STATIC_CACHE \<and> n \<noteq> DYNAMIC_CACHE") (simp_all add: delete_if_old_run)
  obtain rs w'' where 2: "promise_all (map delete_if_old names) w' = (rs, w'')"
    by (cases "promise_all (map delete_if_old names) w'")
  from Cons.IH [of w'] 2 obtain xs where "rs = Inr xs" by (cases rs) auto
  with 1 2 show ?case by simp
qed

lemma sweep_storage:
  "storage (snd (promise_all (map delete_if_old names) w)) =
     filter (\<lambda>nc. fst nc \<in> set names \<longrightarrow> fst nc = STATIC_CACHE \<or> fst nc = DYNAMIC_CACHE) (storage w)"
proof (induction names arbitrary: w)
  case Nil
  show ?case by simp
next
  case (Cons n names)
  obtain r w' where 1: "delete_if_old n w = (Inr r, w')"
    and w': "storage w' = (if n \<noteq> STATIC_CACHE \<and> n \<noteq> DYNAMIC_CACHE
                            then filter (\<lambda>nc. fst nc \<noteq> n) (storage w) else storage w)"
    by (cases "n \<noteq> STATIC_CACHE \<and> n \<noteq> DYNAMIC_CACHE") (simp_all add: delete_if_old_run)
  obtain rs w'' where 2: "promise_all (map delete_if_old names) w' = (rs, w'')"
    by (cases "promise_all (map delete_if_old names) w'")
  have "storage (snd (promise_all (map delete_if_old (n # names)) w)) = storage w''"
    using 1 2 by (simp split: sum.splits)
  also have "\<dots> = filter (\<lambda>nc. fst nc \<in> set names \<longrightarrow> fst nc = STATIC_CACHE \<or> fst nc = DYNAMIC_CACHE) (storage w')"
    using Cons.IH [of w'] 2 by simp
  also have "\<dots> = filter (\<lambda>nc. fst nc \<in> set (n # names) \<longrightarrow> fst nc = STATIC_CACHE \<or> fst nc = DYNAMIC_CACHE) (storage w)"
    by (auto simp: w' intro: filter_cong)
  finally show ?case .
qed

lemma on_activate_run:
  "fst (on_activate w) = Inr ()
   \<and> storage (snd (on_activate w)) =
       filter (\<lambda>nc. fst nc = STATIC_CACHE \<or> fst nc = DYNAMIC_CACHE) (storage w)"
proof -
  let ?w1 = "w\<lparr>trace := trace w @ [Log ''Service Worker activating...'', CachesKeys]\<rparr>"
  let ?names = "map fst (storage w)"
  obtain rs w' where 2: "promise_all (map delete_if_old ?names) ?w1 = (rs, w')"
    by (cases "promise_all (map delete_if_old ?names) ?w1")
  from sweep_fulfils [of ?names ?w1] 2 obtain xs where rs: "rs = Inr xs" by (cases rs) auto
  have st: "storage w' = filter (\<lambda>nc. fst nc \<in> set ?names \<longrightarrow> fst nc = STATIC_CACHE \<or> fst nc = DYNAMIC_CACHE) (storage w)"
    using sweep_storage [of ?names ?w1] 2 by simp
  have "filter (\<lambda>nc. fst nc \<in> set ?names \<longrightarrow> fst nc = STATIC_CACHE \<or> fst nc = DYNAMIC_CACHE) (storage w)
        = filter (\<lambda>nc. fst nc = STATIC_CACHE \<or> fst nc = DYNAMIC_CACHE) (storage w)"
    by (rule filter_cong) auto
  with st have st': "storage w' = filter (\<lambda>nc. fst nc = STATIC_CACHE \<or> fst nc = DYNAMIC_CACHE) (storage w)"
    by simp
  have "on_activate w = (Inr (), w'\<lparr>trace := trace w' @ [Log ''Service Worker activated successfully'', ClientsClaim]\<rparr>)"
    using 2 rs by (simp add: on_activate_def promise_defs)
  with st' show ?thesis by simp
qed

lemma map_of_filter_names:
  "map_of (filter (\<lambda>nc. P (fst nc)) cs) k = (if P k then map_of cs k else None)"
  by (induction cs) auto

lemma on_fetch_extends:
  "\<exists>evs. trace (snd (on_fetch self_origin net rq w)) = trace w @ evs
       \<and> set (cache_writes evs) \<subseteq> {DYNAMIC_CACHE}"
proof (cases "req_method rq = ''GET''")
  case False
  then show ?thesis by (simp add: on_fetch_def cache_writes_def)
next
  case True
  show ?thesis
  proof (cases "req_origin rq = self_origin")
    case same: True
    show ?thesis
      by (simp add: same_origin_closed [OF True same] cache_writes_def emit_def
          split: option.splits)
  next
    case other: False
    show ?thesis
      by (simp add: cross_origin_closed [OF True other] cache_writes_def emit_def
          split: option.splits)
  qed
qed

lemma on_fetch_static:
  "partition_of STATIC_CACHE (snd (on_fetch self_origin net rq w)) = partition_of STATIC_CACHE w"
proof (cases "req_method rq = ''GET''")
  case False
  then show ?thesis by (simp add: on_fetch_def)
next
  case True
  show ?thesis
  proof (cases "req_origin rq = self_origin")
    case same: True
    show ?thesis
      using names_differ
      by (auto simp: same_origin_closed [OF True same] partition_of_def emit_def
          map_of_put_in map_of_create split: option.splits)
  next
    case other: False
    show ?thesis
      using names_differ
      by (auto simp: cross_origin_closed [OF True other] partition_of_def emit_def
          map_of_put_in map_of_create split: option.splits)
  qed
qed

lemma handle_extends:
  "\<exists>evs. trace (handle self_origin e w) = trace w @ evs \<and> set (cache_writes evs) \<subseteq> {DYNAMIC_CACHE}"
proof (cases e)
  case (FetchEvent net rq)
  then show ?thesis using on_fetch_extends [of self_origin net rq w] by simp
next
  case (MessageEvent ev)
  then show ?thesis
    by (auto simp: on_message_def emit_def cache_writes_def Let_def split: list.splits)
next
  case (SyncEvent tag)
  then show ?thesis by (simp add: on_sync_def emit_def cache_writes_def)
qed

lemma handle_static:
  "partition_of STATIC_CACHE (handle self_origin e w) = partition_of STATIC_CACHE w"
proof (cases e)
  case (FetchEvent net rq)
  then show ?thesis by (simp add: on_fetch_static)
next
  case (MessageEvent ev)
  then show ?thesis
    by (auto simp: on_message_def emit_def partition_of_def Let_def split: list.splits)
next
  case (SyncEvent tag)
  then show ?thesis by (simp add: on_sync_def emit_def partition_of_def)
qed

lemma run_extends:
  "\<exists>evs. trace (run self_origin es w) = trace w @ evs \<and> set (cache_writes evs) \<subseteq> {DYNAMIC_CACHE}"
proof (induction es arbitrary: w)
  case Nil
  show ?case by (simp add: cache_writes_def)
next
  case (Cons e es)
  obtain evs1 where 1: "trace (handle self_origin e w) = trace w @ evs1"
    "set (cache_writes evs1) \<subseteq> {DYNAMIC_CACHE}"
    using handle_extends by blast
  obtain evs2 where 2: "trace (run self_origin es (handle self_origin e w)) = trace (handle self_origin e w) @ evs2"
    "set (cache_writes evs2) \<subseteq> {DYNAMIC_CACHE}"
    using Cons.IH by blast
  have "trace (run self_origin (e # es) w) = trace w @ (evs1 @ evs2)"
    using 1 2 by simp
  moreover have "set (cache_writes (evs1 @ evs2)) \<subseteq> {DYNAMIC_CACHE}"
    using 1 2 by (simp add: cache_writes_def)
  ultimately show ?case by blast
qed

subsection \<open>Install\<close>

text \<open>
  Claim C1, as the specification states it: when the fetch of one static asset fails,
  the promise given to \<open>waitUntil\<close> rejects and the worker is discarded. The chain of
  the install listener ends in a \<open>catch\<close> whose handler only logs, so the promise is
  fulfilled and the browser installs the worker: with \<open>./rogers.html\<close> unreachable and
  an empty Cache Storage, the promise does not reject and the worker is not discarded.
\<close>

theorem install_failure_counterexample:
  "''./rogers.html'' \<in> set STATIC_ASSETS
   \<and> html_missing ''./rogers.html'' = None
   \<and> \<not> isl (fst (on_install html_missing fresh))
   \<and> after_install (fst (on_install html_missing fresh)) \<noteq> Redundant"
  by (simp add: on_install_closed html_missing_def after_install_def STATIC_ASSETS_def)

text \<open>
  Claim C1, amended: when the fetch of a static asset fails, \<open>addAll\<close> rejects and
  writes nothing, the rejection is caught and logged, and the promise given to
  \<open>waitUntil\<close> is fulfilled, so the worker is installed. The static partition is created
  when it was absent and its entries are those it had before (none for a new version);
  no cache write happens and \<open>skipWaiting\<close> is not called.
\<close>

theorem install_failure_is_swallowed:
  assumes "u \<in> set STATIC_ASSETS" and "net u = None"
  shows "fst (on_install net w) = Inr ()
       \<and> after_install (fst (on_install net w)) = Installed
       \<and> storage (snd (on_install net w)) = create_if_absent STATIC_CACHE (storage w)
       \<and> entries STATIC_CACHE (snd (on_install net w)) = entries STATIC_CACHE w
       \<and> cache_writes (new_events w (snd (on_install net w))) = []
       \<and> SkipWaiting \<notin> set (new_events w (snd (on_install net w)))"
proof -
  from fetch_all_fails [of u STATIC_ASSETS net] assms
  obtain e where e: "fetch_all net STATIC_ASSETS = Inl e"
    by (cases "fetch_all net STATIC_ASSETS") auto
  have 1: "fst (on_install net w) = Inr ()" by (simp add: on_install_closed)
  have 2: "after_install (fst (on_install net w)) = Installed"
    by (simp add: 1 after_install_def)
  have 3: "storage (snd (on_install net w)) = create_if_absent STATIC_CACHE (storage w)"
    by (simp add: on_install_closed e)
  have 4: "entries STATIC_CACHE (snd (on_install net w)) = entries STATIC_CACHE w"
    by (simp add: entries_def static_after_install e)
  have 5: "cache_writes (new_events w (snd (on_install net w))) = []"
    by (simp add: on_install_closed e new_events_def cache_writes_def written_map_NetFetch)
  have 6: "SkipWaiting \<notin> set (new_events w (snd (on_install net w)))"
    by (auto simp: on_install_closed e new_events_def)
  from 1 2 3 4 5 6 show ?thesis by blast
qed

theorem install_failure_is_swallowed_witness:
  "''./rogers.html'' \<in> set STATIC_ASSETS \<and> html_missing ''./rogers.html'' = None
   \<and> fst (on_install html_missing fresh) = Inr ()
   \<and> entries STATIC_CACHE (snd (on_install html_missing fresh)) = []"
proof -
  have a: "''./rogers.html'' \<in> set STATIC_ASSETS" by (simp add: STATIC_ASSETS_def)
  have b: "html_missing ''./rogers.html'' = None" by (simp add: html_missing_def)
  have c: "entries STATIC_CACHE fresh = []" by (simp add: entries_def partition_of_def fresh_def)
  show ?thesis
    using install_failure_is_swallowed [of "''./rogers.html''" html_missing fresh] a b c by simp
qed

text \<open>
  Claim C8: running install a second time, with the network answering as it did the
  first time, leaves the static partition as the first install left it. Whatever the
  network answers, an install over a partition that already holds every static asset
  keeps the set of its keys and keeps them distinct: no entry is lost, none is
  duplicated.
\<close>

theorem install_idempotent:
  "partition_of STATIC_CACHE (snd (on_install net (snd (on_install net w))))
     = partition_of STATIC_CACHE (snd (on_install net w))
   \<and> (set STATIC_ASSETS \<subseteq> set (map fst (entries STATIC_CACHE w))
        \<and> distinct (map fst (entries STATIC_CACHE w)) \<longrightarrow>
        set (map fst (entries STATIC_CACHE (snd (on_install net w))))
          = set (map fst (entries STATIC_CACHE w))
      \<and> distinct (map fst (entries STATIC_CACHE (snd (on_install net w)))))"
proof (cases "fetch_all net STATIC_ASSETS")
  case (Inl e)
  then show ?thesis
    by (simp add: static_after_install entries_def)
next
  case (Inr rs)
  then have "map fst rs = STATIC_ASSETS" by (rule fetch_all_keys)
  moreover have "distinct STATIC_ASSETS" by (simp add: STATIC_ASSETS_def)
  ultimately have k: "map fst rs = STATIC_ASSETS" and d: "distinct (map fst rs)" by simp_all
  have after: "entries STATIC_CACHE (snd (on_install net w)) = put_entries rs (entries STATIC_CACHE w)"
    by (simp add: entries_def [of _ "snd (on_install net w)"] static_after_install Inr)
  have "partition_of STATIC_CACHE (snd (on_install net (snd (on_install net w))))
     = partition_of STATIC_CACHE (snd (on_install net w))"
    by (simp add: static_after_install Inr after put_entries_twice [OF d])
  moreover have "set (map fst (entries STATIC_CACHE (snd (on_install net w))))
          = set (map fst (entries STATIC_CACHE w))
      \<and> distinct (map fst (entries STATIC_CACHE (snd (on_install net w))))"
    if "set STATIC_ASSETS \<subseteq> set (map fst (entries STATIC_CACHE w))"
      and "distinct (map fst (entries STATIC_CACHE w))"
    using put_entries_keys [OF d _ that(2)] that(1) k by (simp add: after)
  ultimately show ?thesis by blast
qed

theorem install_idempotent_witness:
  "set STATIC_ASSETS \<subseteq> set (map fst (entries STATIC_CACHE populated))
   \<and> distinct (map fst (entries STATIC_CACHE populated))
   \<and> set (map fst (entries STATIC_CACHE (snd (on_install updated populated)))) = set STATIC_ASSETS
   \<and> distinct (map fst (entries STATIC_CACHE (snd (on_install updated populated))))
   \<and> partition_of STATIC_CACHE (snd (on_install updated (snd (on_install updated populated))))
       = partition_of STATIC_CACHE (snd (on_install updated populated))"
proof -
  have e: "map fst (entries STATIC_CACHE populated) = STATIC_ASSETS"
    by (simp add: entries_def partition_of_def populated_def STATIC_CACHE_def STATIC_ASSETS_def)
  have d: "distinct STATIC_ASSETS" by (simp add: STATIC_ASSETS_def)
  from install_idempotent [of updated populated] e d show ?thesis by simp
qed

subsection \<open>Activate\<close>

text \<open>
  Claim C4: the activate listener fulfils its promise and leaves exactly the partitions
  named \<open>STATIC_CACHE\<close> or \<open>DYNAMIC_CACHE\<close>, in their order and with their
  contents: every partition of another name is gone, the two current ones are intact.
\<close>

theorem activate_deletes_stale_partitions:
  "fst (on_activate w) = Inr ()
   \<and> storage (snd (on_activate w)) =
       filter (\<lambda>nc. fst nc = STATIC_CACHE \<or> fst nc = DYNAMIC_CACHE) (storage w)
   \<and> (name \<noteq> STATIC_CACHE \<and> name \<noteq> DYNAMIC_CACHE \<longrightarrow>
        partition_of name (snd (on_activate w)) = None)
   \<and> partition_of STATIC_CACHE (snd (on_activate w)) = partition_of STATIC_CACHE w
   \<and> partition_of DYNAMIC_CACHE (snd (on_activate w)) = partition_of DYNAMIC_CACHE w"
proof -
  have "partition_of n (snd (on_activate w)) =
          (if n = STATIC_CACHE \<or> n = DYNAMIC_CACHE then partition_of n w else None)" for n
    using map_of_filter_names [of "\<lambda>k. k = STATIC_CACHE \<or> k = DYNAMIC_CACHE" "storage w" n]
    by (simp add: partition_of_def on_activate_run)
  then show ?thesis
    by (simp add: on_activate_run)
qed

theorem activate_deletes_stale_partitions_witness:
  "''rogers-static-v1'' \<noteq> STATIC_CACHE \<and> ''rogers-static-v1'' \<noteq> DYNAMIC_CACHE
   \<and> partition_of ''rogers-static-v1'' old_and_new = Some [(''./'', page)]
   \<and> partition_of ''rogers-static-v1'' (snd (on_activate old_and_new)) = None
   \<and> partition_of STATIC_CACHE (snd (on_activate old_and_new)) = Some [(''./'', page)]
   \<and> partition_of DYNAMIC_CACHE (snd (on_activate old_and_new)) = Some [(''https://cdn.example/app.js'', page)]"
  using activate_deletes_stale_partitions [of old_and_new "''rogers-static-v1''"]
  by (simp add: STATIC_CACHE_def DYNAMIC_CACHE_def partition_of_def old_and_new_def)

subsection \<open>Fetch\<close>

text \<open>
  Claim C2: a same-origin GET whose URL is in no partition makes exactly one network
  fetch. When the fetch resolves with status 200, the response is returned, the one
  cache write goes to the dynamic partition, which then holds the response under the
  URL, and the same request handled again is answered from the cache with a lookup and
  nothing else, whatever the network is by then. When the fetch resolves with another
  status, the response is returned and the Cache Storage is as it was. The write is
  started without being awaited; the world after the event is the one in which it has
  completed.
\<close>

theorem same_origin_miss_fetches_once_and_caches:
  assumes "req_method rq = ''GET''" and "req_origin rq = self_origin"
    and "match_all (req_url rq) (storage w) = None"
  shows "net_fetches (new_events w (snd (on_fetch self_origin net rq w))) = [req_url rq]
       \<and> (net (req_url rq) = Some r \<and> status r = 200 \<longrightarrow>
            fst (on_fetch self_origin net rq w) = Some (Inr (Some r))
          \<and> cache_writes (new_events w (snd (on_fetch self_origin net rq w))) = [DYNAMIC_CACHE]
          \<and> map_of (entries DYNAMIC_CACHE (snd (on_fetch self_origin net rq w))) (req_url rq) = Some r
          \<and> on_fetch self_origin net' rq (snd (on_fetch self_origin net rq w))
              = (Some (Inr (Some r)),
                 emit [CachesMatch (req_url rq)] (snd (on_fetch self_origin net rq w))))
       \<and> (net (req_url rq) = Some r \<and> status r \<noteq> 200 \<longrightarrow>
            fst (on_fetch self_origin net rq w) = Some (Inr (Some r))
          \<and> cache_writes (new_events w (snd (on_fetch self_origin net rq w))) = []
          \<and> storage (snd (on_fetch self_origin net rq w)) = storage w)"
proof -
  note closed = same_origin_closed [OF assms(1,2)]
  have once: "net_fetches (new_events w (snd (on_fetch self_origin net rq w))) = [req_url rq]"
    by (simp add: closed assms(3) observe_defs split: option.splits)
  have hit: "fst (on_fetch self_origin net rq w) = Some (Inr (Some r))
          \<and> cache_writes (new_events w (snd (on_fetch self_origin net rq w))) = [DYNAMIC_CACHE]
          \<and> map_of (entries DYNAMIC_CACHE (snd (on_fetch self_origin net rq w))) (req_url rq) = Some r
          \<and> on_fetch self_origin net' rq (snd (on_fetch self_origin net rq w))
              = (Some (Inr (Some r)),
                 emit [CachesMatch (req_url rq)] (snd (on_fetch self_origin net rq w)))"
    if ok: "net (req_url rq) = Some r" "status r = 200"
  proof -
    let ?cs = "put_in DYNAMIC_CACHE (req_url rq) r (create_if_absent DYNAMIC_CACHE (storage w))"
    have st: "storage (snd (on_fetch self_origin net rq w)) = ?cs"
      by (simp add: closed assms(3) ok)
    have m: "match_all (req_url rq) ?cs = Some r"
      by (simp add: match_all_put_in match_all_create assms(3) has_cache_create)
    have a: "fst (on_fetch self_origin net rq w) = Some (Inr (Some r))"
      by (simp add: closed assms(3) ok)
    have b: "cache_writes (new_events w (snd (on_fetch self_origin net rq w))) = [DYNAMIC_CACHE]"
      by (simp add: closed assms(3) ok observe_defs)
    have c: "map_of (entries DYNAMIC_CACHE (snd (on_fetch self_origin net rq w))) (req_url rq) = Some r"
      using has_cache_create [of DYNAMIC_CACHE "storage w"]
      by (auto simp: entries_def partition_of_def st map_of_put_in map_of_put_entry_same
          has_cache_map_of)
    have d: "on_fetch self_origin net' rq (snd (on_fetch self_origin net rq w))
              = (Some (Inr (Some r)),
                 emit [CachesMatch (req_url rq)] (snd (on_fetch self_origin net rq w)))"
      by (simp add: same_origin_closed [OF assms(1,2), of net'] st m)
    from a b c d show ?thesis by blast
  qed
  have miss: "fst (on_fetch self_origin net rq w) = Some (Inr (Some r))
          \<and> cache_writes (new_events w (snd (on_fetch self_origin net rq w))) = []
          \<and> storage (snd (on_fetch self_origin net rq w)) = storage w"
    if "net (req_url rq) = Some r" "status r \<noteq> 200"
    using that by (simp add: closed assms(3) observe_defs)
  from once hit miss show ?thesis by blast
qed

theorem same_origin_miss_witness:
  "req_method menu_get = ''GET'' \<and> req_origin menu_get = here
   \<and> match_all (req_url menu_get) (storage fresh) = None
   \<and> online (req_url menu_get) = Some page \<and> status page = 200
   \<and> net_fetches (new_events fresh (snd (on_fetch here online menu_get fresh))) = [req_url menu_get]
   \<and> fst (on_fetch here online menu_get fresh) = Some (Inr (Some page))
   \<and> fst (on_fetch here offline menu_get (snd (on_fetch here online menu_get fresh)))
       = Some (Inr (Some page))
   \<and> not_found (req_url menu_get) = Some \<lparr>status = 404, body = ''''\<rparr>
   \<and> status \<lparr>status = 404, body = ''''\<rparr> \<noteq> 200
   \<and> storage (snd (on_fetch here not_found menu_get fresh)) = storage fresh"
proof -
  have h: "req_method menu_get = ''GET''" "req_origin menu_get = here"
    "match_all (req_url menu_get) (storage fresh) = None"
    by (simp_all add: menu_get_def here_def fresh_def)
  have n: "online (req_url menu_get) = Some page" "status page = 200"
    "not_found (req_url menu_get) = Some \<lparr>status = 404, body = ''''\<rparr>"
    "status \<lparr>status = 404, body = ''''\<rparr> \<noteq> 200"
    by (simp_all add: online_def page_def not_found_def)
  from same_origin_miss_fetches_once_and_caches [OF h, of online page offline]
    same_origin_miss_fetches_once_and_caches [OF h, of not_found "\<lparr>status = 404, body = ''''\<rparr>" offline]
    h n
  show ?thesis by simp
qed

text \<open>
  Claim C3: for a request whose method is not GET the listener returns without calling
  \<open>respondWith\<close> and without touching the world: no lookup, no fetch by the worker, no
  write, every partition as it was.
\<close>

theorem non_get_not_intercepted:
  assumes "req_method rq \<noteq> ''GET''"
  shows "on_fetch self_origin net rq w = (None, w)
       \<and> cache_lookups (new_events w (snd (on_fetch self_origin net rq w))) = []
       \<and> cache_writes (new_events w (snd (on_fetch self_origin net rq w))) = []
       \<and> net_fetches (new_events w (snd (on_fetch self_origin net rq w))) = []"
  using assms by (simp add: on_fetch_def observe_defs)

theorem non_get_witness:
  "req_method order_post \<noteq> ''GET'' \<and> on_fetch here online order_post old_and_new = (None, old_and_new)"
proof -
  have h: "req_method order_post \<noteq> ''GET''" by (simp add: order_post_def)
  from non_get_not_intercepted [OF h] h show ?thesis by simp
qed

text \<open>
  Claim C5: a cross-origin GET that misses the cache, whose network fetch rejects and
  whose destination is \<open>image\<close>, is answered with an empty response of status 404;
  the promise given to \<open>respondWith\<close> is fulfilled, not rejected.
\<close>

theorem cross_origin_image_fallback:
  assumes "req_method rq = ''GET''" and "req_origin rq \<noteq> self_origin"
    and "match_all (req_url rq) (storage w) = None"
    and "net (req_url rq) = None"
    and "req_destination rq = ''image''"
  shows "fst (on_fetch self_origin net rq w) = Some (Inr (Some \<lparr>status = 404, body = ''''\<rparr>))"
  by (simp add: cross_origin_closed [OF assms(1,2)] assms(3,4,5))

theorem cross_origin_image_witness:
  "req_method cdn_image = ''GET'' \<and> req_origin cdn_image \<noteq> here
   \<and> match_all (req_url cdn_image) (storage old_and_new) = None
   \<and> offline (req_url cdn_image) = None \<and> req_destination cdn_image = ''image''
   \<and> fst (on_fetch here offline cdn_image old_and_new) = Some (Inr (Some \<lparr>status = 404, body = ''''\<rparr>))"
proof -
  have h: "req_method cdn_image = ''GET''" "req_origin cdn_image \<noteq> here"
    "match_all (req_url cdn_image) (storage old_and_new) = None"
    "offline (req_url cdn_image) = None" "req_destination cdn_image = ''image''"
    by (simp_all add: cdn_image_def here_def old_and_new_def offline_def)
  from cross_origin_image_fallback [of cdn_image here old_and_new offline] h show ?thesis by simp
qed

text \<open>
  Claim C6: a same-origin GET that misses the cache and whose network fetch rejects
  makes the promise given to \<open>respondWith\<close> reject with the network error; the Cache
  Storage is as it was and no cache write happens.
\<close>

theorem same_origin_failure_propagates:
  assumes "req_method rq = ''GET''" and "req_origin rq = self_origin"
    and "match_all (req_url rq) (storage w) = None"
    and "net (req_url rq) = None"
  shows "fst (on_fetch self_origin net rq w) = Some (Inl (NetworkError (req_url rq)))
       \<and> storage (snd (on_fetch self_origin net rq w)) = storage w
       \<and> cache_writes (new_events w (snd (on_fetch self_origin net rq w))) = []"
  by (simp add: same_origin_closed [OF assms(1,2)] assms(3,4) observe_defs)

theorem same_origin_failure_witness:
  "req_method menu_get = ''GET'' \<and> req_origin menu_get = here
   \<and> match_all (req_url menu_get) (storage old_and_new) = None
   \<and> offline (req_url menu_get) = None
   \<and> fst (on_fetch here offline menu_get old_and_new) = Some (Inl (NetworkError (req_url menu_get)))
   \<and> storage (snd (on_fetch here offline menu_get old_and_new)) = storage old_and_new"
proof -
  have h: "req_method menu_get = ''GET''" "req_origin menu_get = here"
    "match_all (req_url menu_get) (storage old_and_new) = None"
    "offline (req_url menu_get) = None"
    by (simp_all add: menu_get_def here_def old_and_new_def offline_def)
  from same_origin_failure_propagates [of menu_get here old_and_new offline] h show ?thesis by simp
qed

text \<open>
  Claim C9: a cross-origin GET that misses the cache, whose network fetch rejects and
  whose destination is not \<open>image\<close>, fulfils the promise given to \<open>respondWith\<close>
  with \<open>undefined\<close>: the catch handler returns nothing.
\<close>

theorem cross_origin_other_undefined:
  assumes "req_method rq = ''GET''" and "req_origin rq \<noteq> self_origin"
    and "match_all (req_url rq) (storage w) = None"
    and "net (req_url rq) = None"
    and "req_destination rq \<noteq> ''image''"
  shows "fst (on_fetch self_origin net rq w) = Some (Inr None)"
  by (simp add: cross_origin_closed [OF assms(1,2)] assms(3,4,5))

theorem cross_origin_other_witness:
  "req_method cdn_script = ''GET'' \<and> req_origin cdn_script \<noteq> here
   \<and> match_all (req_url cdn_script) (storage fresh) = None
   \<and> offline (req_url cdn_script) = None \<and> req_destination cdn_script \<noteq> ''image''
   \<and> fst (on_fetch here offline cdn_script fresh) = Some (Inr None)"
proof -
  have h: "req_method cdn_script = ''GET''" "req_origin cdn_script \<noteq> here"
    "match_all (req_url cdn_script) (storage fresh) = None"
    "offline (req_url cdn_script) = None" "req_destination cdn_script \<noteq> ''image''"
    by (simp_all add: cdn_script_def here_def fresh_def offline_def)
  from cross_origin_other_undefined [of cdn_script here fresh offline] h show ?thesis by simp
qed

text \<open>
  Claim C10: over any run of fetch, message and sync events, the static partition is
  what it was before the run, and every cache write of the run names the dynamic
  partition.
\<close>

theorem fetch_writes_only_dynamic:
  "partition_of STATIC_CACHE (run self_origin es w) = partition_of STATIC_CACHE w
   \<and> set (cache_writes (new_events w (run self_origin es w))) \<subseteq> {DYNAMIC_CACHE}"
proof -
  have "partition_of STATIC_CACHE (run self_origin es w) = partition_of STATIC_CACHE w"
    by (induction es arbitrary: w) (simp_all add: handle_static)
  moreover obtain evs where "trace (run self_origin es w) = trace w @ evs"
    "set (cache_writes evs) \<subseteq> {DYNAMIC_CACHE}"
    using run_extends by blast
  then have "set (cache_writes (new_events w (run self_origin es w))) \<subseteq> {DYNAMIC_CACHE}"
    by (simp add: new_events_def)
  ultimately show ?thesis by simp
qed

theorem fetch_writes_only_dynamic_witness:
  "partition_of STATIC_CACHE
     (run here [FetchEvent online menu_get, FetchEvent online cdn_script,
                MessageEvent version_query, SyncEvent ''background-sync''] old_and_new)
     = Some [(''./'', page)]"
proof -
  have "partition_of STATIC_CACHE old_and_new = Some [(''./'', page)]"
    by (simp add: partition_of_def old_and_new_def STATIC_CACHE_def)
  with fetch_writes_only_dynamic [of here "[FetchEvent online menu_get, FetchEvent online cdn_script,
                MessageEvent version_query, SyncEvent ''background-sync'']" old_and_new]
  show ?thesis by simp
qed

subsection \<open>Messages\<close>

text \<open>
  Claim C7, as the specification states it: the reply to \<open>GET_VERSION\<close> is the
  version embedded in the partition names. That version is \<open>v2\<close>; the reply carries
  \<open>rogers-restaurant-v2\<close>, which is neither that version nor the name of a partition.
\<close>

theorem get_version_counterexample:
  "has_type ''GET_VERSION'' (msg_data version_query)
   \<and> version_of STATIC_CACHE = ''v2'' \<and> version_of DYNAMIC_CACHE = ''v2''
   \<and> CACHE_NAME \<noteq> STATIC_CACHE \<and> CACHE_NAME \<noteq> DYNAMIC_CACHE
   \<and> new_events fresh (snd (on_message version_query fresh)) = [PostMessage 0 ''rogers-restaurant-v2'']
   \<and> new_events fresh (snd (on_message version_query fresh)) \<noteq> [PostMessage 0 (version_of STATIC_CACHE)]"
  by (simp add: version_query_def has_type_def on_message_def fresh_def emit_def new_events_def
      CACHE_NAME_def version_of_def STATIC_CACHE_def DYNAMIC_CACHE_def)

text \<open>
  Claim C7, amended: a \<open>GET_VERSION\<close> message that comes with a reply port is
  answered on the first port with the constant \<open>CACHE_NAME\<close>, the string
  \<open>rogers-restaurant-v2\<close>; its version suffix is the one of both partition names.
\<close>

theorem get_version_replies_cache_name:
  assumes "has_type ''GET_VERSION'' (msg_data ev)" and "msg_ports ev = p # ps"
  shows "on_message ev w = (Inr (), emit [PostMessage p CACHE_NAME] w)
       \<and> CACHE_NAME = ''rogers-restaurant-v2''
       \<and> version_of CACHE_NAME = version_of STATIC_CACHE
       \<and> version_of CACHE_NAME = version_of DYNAMIC_CACHE"
proof -
  from assms(1) have "\<not> has_type ''SKIP_WAITING'' (msg_data ev)"
    by (auto simp: has_type_def split: data.splits)
  with assms have "on_message ev w = (Inr (), emit [PostMessage p CACHE_NAME] w)"
    by (simp add: on_message_def)
  moreover have "version_of CACHE_NAME = version_of STATIC_CACHE"
    by (simp add: version_of_def CACHE_NAME_def STATIC_CACHE_def)
  moreover have "version_of CACHE_NAME = version_of DYNAMIC_CACHE"
    by (simp add: version_of_def CACHE_NAME_def DYNAMIC_CACHE_def)
  ultimately show ?thesis by (simp add: CACHE_NAME_def)
qed

theorem get_version_replies_cache_name_witness:
  "has_type ''GET_VERSION'' (msg_data version_query) \<and> msg_ports version_query = [0]
   \<and> on_message version_query fresh = (Inr (), \<lparr>storage = [], trace = [PostMessage 0 ''rogers-restaurant-v2'']\<rparr>)"
  using get_version_replies_cache_name [of version_query 0 "[]" fresh]
  by (simp add: version_query_def has_type_def fresh_def emit_def CACHE_NAME_def)

end
